theory Spec2Isabelle
  imports Complex_Main
begin

section \<open>Configuration: the batch size read by \<open>getConfig\<close>\<close>

text \<open>
  \<open>src/server.js\<close>, lines 46-89. \<open>parseInt\<close> is a JavaScript built-in; its result on the
  configured text is the input of the model: \<open>NaN\<close> (nothing parsable, or the key is absent)
  or an integer.
\<close>

datatype js_number = NaN | Num int

text \<open>The \<open>console.warn\<close> of lines 63-65, with the value it prints.\<close>

datatype config_warning = InvalidBatchSize int

text \<open>\<open>x || d\<close> on a number: \<open>NaN\<close> and \<open>0\<close> are falsy.\<close>

definition or_default :: "js_number \<Rightarrow> int \<Rightarrow> int" where
  "or_default x d = (case x of NaN \<Rightarrow> d | Num v \<Rightarrow> if v = 0 then d else v)"

text \<open>
  Lines 55 and 62-67: \<open>let BATCH_SIZE = parseInt(config.BATCH_SIZE) || 100\<close>, then the
  range check, which warns and falls back to 100. The result is the batch size and the
  warnings logged for it. A configured \<open>0\<close>, an unparsable value and an absent key are
  already 100 when the check of line 62 sees them, so nothing is logged for them. The
  function has no failing path: its \<open>catch\<close> block returns the same default.
\<close>

definition getConfig_BATCH_SIZE :: "js_number \<Rightarrow> int \<times> config_warning list" where
  "getConfig_BATCH_SIZE parsed =
     (let BATCH_SIZE = or_default parsed 100
      in if BATCH_SIZE < 1 \<or> BATCH_SIZE > 1000 then (100, [InvalidBatchSize BATCH_SIZE])
         else (BATCH_SIZE, []))"

section \<open>Connection bootstrap: \<open>initializeWeb3\<close>\<close>

text \<open>
  Lines 481-550. One attempt is everything between \<open>try\<close> and \<open>return true\<close>: building the
  provider, \<open>getNetwork\<close>, the wallet, the contract and the \<open>owner()\<close> call raced against
  a 10 s timer. Its outcome for attempt number \<open>retryCount\<close> is given by the environment:
  \<open>Inl msg\<close> when anything in it throws, \<open>Inr owner_is_wallet\<close> otherwise (an owner
  mismatch only logs a warning).
\<close>

record conn_env =
  private_key_usable :: bool
  attempt :: "nat \<Rightarrow> string + bool"

datatype conn_event = Attempt nat | Backoff nat

function initializeWeb3 :: "conn_env \<Rightarrow> nat \<Rightarrow> nat \<Rightarrow> bool \<times> conn_event list" where
  "initializeWeb3 cenv retryCount maxRetries =
     (if \<not> private_key_usable cenv then (False, [])
      else case attempt cenv retryCount of
             Inr owner_ok \<Rightarrow> (True, [Attempt retryCount])
           | Inl msg \<Rightarrow>
               if retryCount < maxRetries
               then let delay = 2 ^ retryCount * 1000;
                        rest = initializeWeb3 cenv (retryCount + 1) maxRetries
                    in (fst rest, Attempt retryCount # Backoff delay # snd rest)
               else (False, [Attempt retryCount]))"
  by pat_completeness auto
termination
  by (relation "measure (\<lambda>(cenv, retryCount, maxRetries). Suc maxRetries - retryCount)") auto

declare initializeWeb3.simps [simp del]

text \<open>The call of line 180, with the default parameters \<open>retryCount = 0, maxRetries = 3\<close>.\<close>

definition startServer_initializeWeb3 :: "conn_env \<Rightarrow> bool \<times> conn_event list" where
  "startServer_initializeWeb3 cenv = initializeWeb3 cenv 0 3"

definition attempts :: "conn_event list \<Rightarrow> nat list" where
  "attempts evs = concat (map (\<lambda>ev. case ev of Attempt k \<Rightarrow> [k] | Backoff d \<Rightarrow> []) evs)"

definition backoffs :: "conn_event list \<Rightarrow> nat list" where
  "backoffs evs = concat (map (\<lambda>ev. case ev of Attempt k \<Rightarrow> [] | Backoff d \<Rightarrow> [d]) evs)"

section \<open>The batch run: \<open>distributeRewardsInBatches\<close>\<close>

text \<open>
  Lines 553-715. The remote contract is the environment of a run. Every awaited call is
  raced against a timer, and both a rejection and the timer's rejection reach the same
  handler with an \<open>Error\<close> that carries a message, so a call answers \<open>Inl message\<close> or
  \<open>Inr value\<close>. The user count is a \<open>uint256\<close> (a natural number), a gas estimate is a
  non-negative \<open>bigint\<close>.
\<close>

text \<open>
  \<open>Number(totalUsers)\<close>, lines 586 and 599: the conversion of a \<open>bigint\<close> to a double,
  which rounds to 53 significant bits, to the nearest value and to the even one on a tie.
  Counts up to \<open>2 ^ 53\<close> are converted exactly; \<open>2 ^ 53 + 1\<close> becomes \<open>2 ^ 53\<close>. A
  \<open>uint256\<close> is far below the largest double, so the conversion never overflows. The
  values of doubles that hold integers are modelled as integers; the division, the
  products and the sums of lines 586-600 are exact on them as long as no value exceeds
  \<open>2 ^ 53\<close>.
\<close>

function bit_length :: "nat \<Rightarrow> nat" where
  "bit_length n = (if n = 0 then 0 else Suc (bit_length (n div 2)))"
  by pat_completeness auto
termination
  by (relation "measure id") auto

declare bit_length.simps [simp del]

definition Number_of :: "nat \<Rightarrow> int" where
  "Number_of n =
     (if n \<le> 2 ^ 53 then int n
      else let e = bit_length n - 53;
               q = n div 2 ^ e;
               r = n mod 2 ^ e;
               half = 2 ^ (e - 1)
           in int ((if r > half \<or> (r = half \<and> odd q) then q + 1 else q) * 2 ^ e))"

record receipt =
  blockNumber :: int
  status :: int

record tx =
  hash :: string
  wait :: "string + receipt"

record env =
  web3_ready :: bool
  getUSersLengh :: "string + nat"
  estimateGas :: "int \<Rightarrow> int \<Rightarrow> string + nat"
  distributeRewardsToAll :: "int \<Rightarrow> int \<Rightarrow> nat \<Rightarrow> string + tx"

datatype run_status = AllSucceeded | PartialSuccess | AllFailed

datatype event =
    GetUsersLength
  | EstimateGas int int
  | Submit int int nat
  | WaitTx string
  | Sleep nat
  | StatusLine run_status

record failed_batch =
  batch :: int
  error :: string

record loop_state =
  successCount :: nat
  failureCount :: nat
  failedBatches :: "failed_batch list"
  events :: "event list"

text \<open>Line 586: \<open>Math.ceil(Number(totalUsers) / BATCH_SIZE)\<close>.\<close>

definition totalBatches_of :: "nat \<Rightarrow> int \<Rightarrow> int" where
  "totalBatches_of totalUsers BATCH_SIZE =
     \<lceil>real_of_int (Number_of totalUsers) / real_of_int BATCH_SIZE\<rceil>"

text \<open>Lines 596-600.\<close>

definition startIndex_of :: "int \<Rightarrow> int \<Rightarrow> int" where
  "startIndex_of BATCH_SIZE batchIndex = batchIndex * BATCH_SIZE"

definition endIndex_of :: "int \<Rightarrow> nat \<Rightarrow> int \<Rightarrow> int" where
  "endIndex_of BATCH_SIZE totalUsers batchIndex =
     min (startIndex_of BATCH_SIZE batchIndex + BATCH_SIZE - 1) (Number_of totalUsers - 1)"

text \<open>Line 631: \<open>(gasEstimate * 120n) / 100n\<close>, a \<open>bigint\<close> division, which truncates.\<close>

definition gasLimit_of :: "nat \<Rightarrow> nat" where
  "gasLimit_of gasEstimate = (gasEstimate * 120) div 100"

text \<open>The three places that record a failure: lines 620-624, 662-666 and 676-677.\<close>

definition record_failure :: "int \<Rightarrow> string \<Rightarrow> loop_state \<Rightarrow> loop_state" where
  "record_failure batchIndex msg st =
     st\<lparr>failedBatches := failedBatches st @ [\<lparr>batch = batchIndex + 1, error = msg\<rparr>],
        failureCount := failureCount st + 1\<rparr>"

definition emit :: "event list \<Rightarrow> loop_state \<Rightarrow> loop_state" where
  "emit evs st = st\<lparr>events := events st @ evs\<rparr>"

text \<open>Lines 669-673, reached only at the end of the \<open>try\<close> block.\<close>

definition rate_limit :: "int \<Rightarrow> int \<Rightarrow> loop_state \<Rightarrow> loop_state" where
  "rate_limit totalBatches batchIndex st =
     (if batchIndex < totalBatches - 1 then emit [Sleep 5000] st else st)"

text \<open>
  One iteration of the loop body, lines 596-679. A failed gas estimation records the
  failure and \<open>continue\<close>s (line 625); an exception from the submission or from the wait
  for the receipt goes to the \<open>catch\<close> of line 674, which records it and \<open>continue\<close>s; a
  receipt is classified by \<open>receipt.status === 1\<close>, and only then the pause is reached.
\<close>

definition process_batch ::
  "env \<Rightarrow> int \<Rightarrow> nat \<Rightarrow> int \<Rightarrow> int \<Rightarrow> loop_state \<Rightarrow> loop_state" where
  "process_batch e BATCH_SIZE totalUsers totalBatches batchIndex st =
     (let startIndex = startIndex_of BATCH_SIZE batchIndex;
          endIndex = endIndex_of BATCH_SIZE totalUsers batchIndex;
          st1 = emit [EstimateGas startIndex endIndex] st
      in case estimateGas e startIndex endIndex of
           Inl gasError \<Rightarrow> record_failure batchIndex gasError st1
         | Inr gasEstimate \<Rightarrow>
             let st2 = emit [Submit startIndex endIndex (gasLimit_of gasEstimate)] st1
             in case distributeRewardsToAll e startIndex endIndex (gasLimit_of gasEstimate) of
                  Inl err \<Rightarrow> record_failure batchIndex err st2
                | Inr t \<Rightarrow>
                    let st3 = emit [WaitTx (hash t)] st2
                    in case wait t of
                         Inl err \<Rightarrow> record_failure batchIndex err st3
                       | Inr r \<Rightarrow>
                           rate_limit totalBatches batchIndex
                             (if status r = 1
                              then st3\<lparr>successCount := successCount st3 + 1\<rparr>
                              else record_failure batchIndex ''Transaction failed'' st3))"

text \<open>The \<open>for\<close> loop of line 595.\<close>

function batch_loop ::
  "env \<Rightarrow> int \<Rightarrow> nat \<Rightarrow> int \<Rightarrow> int \<Rightarrow> loop_state \<Rightarrow> loop_state" where
  "batch_loop e BATCH_SIZE totalUsers totalBatches batchIndex st =
     (if batchIndex < totalBatches
      then batch_loop e BATCH_SIZE totalUsers totalBatches (batchIndex + 1)
             (process_batch e BATCH_SIZE totalUsers totalBatches batchIndex st)
      else st)"
  by pat_completeness auto
termination
  by (relation "measure (\<lambda>(e, B, n, totalBatches, batchIndex, st). nat (totalBatches - batchIndex))")
     auto

declare batch_loop.simps [simp del]

text \<open>Decimal text of a number, for the template string of line 688.\<close>

definition digit_char :: "nat \<Rightarrow> char" where
  "digit_char d = ''0123456789'' ! d"

function show_nat :: "nat \<Rightarrow> string" where
  "show_nat n = (if n < 10 then [digit_char n] else show_nat (n div 10) @ [digit_char (n mod 10)])"
  by pat_completeness auto
termination
  by (relation "measure id") auto

declare show_nat.simps [simp del]

definition show_int :: "int \<Rightarrow> string" where
  "show_int i = (if i < 0 then ''-'' @ show_nat (nat (- i)) else show_nat (nat i))"

text \<open>Lines 698-704: the status line that the run logs.\<close>

definition status_of :: "nat \<Rightarrow> int \<Rightarrow> run_status" where
  "status_of sc totalBatches =
     (if int sc = totalBatches then AllSucceeded
      else if sc > 0 then PartialSuccess
      else AllFailed)"

text \<open>
  The three shapes of the returned object: line 582, lines 682-689 and lines 709-713.
\<close>

datatype run_result =
    Skipped (r_success: bool) (r_message: string)
  | Summary (r_success: bool) (r_totalBatches: int) (r_successCount: nat)
      (r_failureCount: nat) (r_failedBatches: "failed_batch list") (r_message: string)
  | Fatal (r_success: bool) (r_error: string) (r_message: string)

definition initial_state :: loop_state where
  "initial_state = \<lparr>successCount = 0, failureCount = 0, failedBatches = [], events = [GetUsersLength]\<rparr>"

definition fatal :: "string \<Rightarrow> run_result" where
  "fatal msg = Fatal False msg ''Distribution process failed completely''"

text \<open>
  The body of the outer \<open>try\<close>, lines 555-706. \<open>Inl\<close> is an exception that leaves the
  body, with its message and the calls made before it: the \<open>throw\<close> of line 559 and the
  re-\<open>throw\<close> of line 575 in the handler of the count query. \<open>Inr\<close> is a \<open>return\<close>.
\<close>

definition run_body :: "env \<Rightarrow> int \<Rightarrow> string \<times> event list + run_result \<times> event list" where
  "run_body e BATCH_SIZE =
     (if \<not> web3_ready e
      then Inl (''Web3 not initialized. Cannot proceed with distribution.'', [])
      else case getUSersLengh e of
             Inl contractError \<Rightarrow>
               Inl (''Contract connection failed: '' @ contractError, [GetUsersLength])
           | Inr totalUsers \<Rightarrow>
               if totalUsers = 0 then Inr (Skipped True ''No users to process'', [GetUsersLength])
               else
                 let totalBatches = totalBatches_of totalUsers BATCH_SIZE;
                     st = batch_loop e BATCH_SIZE totalUsers totalBatches 0 initial_state
                 in Inr (Summary (successCount st > 0) totalBatches (successCount st)
                           (failureCount st) (failedBatches st)
                           (show_nat (successCount st) @ ''/'' @ show_int totalBatches
                              @ '' batches completed successfully''),
                         events st @ [StatusLine (status_of (successCount st) totalBatches)]))"

text \<open>The function with its outer \<open>catch\<close>, lines 707-714: the result and the trace of a run.\<close>

definition distributeRewardsInBatches :: "env \<Rightarrow> int \<Rightarrow> run_result \<times> event list" where
  "distributeRewardsInBatches e BATCH_SIZE =
     (case run_body e BATCH_SIZE of
        Inl (msg, evs) \<Rightarrow> (fatal msg, evs)
      | Inr r \<Rightarrow> r)"

text \<open>The ranges for which a trace asks a gas estimate, in order.\<close>

definition estimated_ranges :: "event list \<Rightarrow> (int \<times> int) list" where
  "estimated_ranges evs =
     concat (map (\<lambda>ev. case ev of EstimateGas s t \<Rightarrow> [(s, t)] | _ \<Rightarrow> []) evs)"

definition run_summary :: "env \<Rightarrow> int \<Rightarrow> run_result" where
  "run_summary e BATCH_SIZE = fst (distributeRewardsInBatches e BATCH_SIZE)"

definition run_events :: "env \<Rightarrow> int \<Rightarrow> event list" where
  "run_events e BATCH_SIZE = snd (distributeRewardsInBatches e BATCH_SIZE)"

text \<open>
  The ranges that a run works through: the bounds that its iterations pass to the gas
  estimation, the first call of every iteration, in the order of the calls.
\<close>

definition run_ranges :: "env \<Rightarrow> int \<Rightarrow> (int \<times> int) list" where
  "run_ranges e BATCH_SIZE = estimated_ranges (run_events e BATCH_SIZE)"

text \<open>
  The ranges of a run in closed form: the early return of lines 580-583, the batch count
  of line 586 and the bounds of lines 596-600. Lemma \<open>run_visits_plan\<close> shows that a run
  works through exactly this list.
\<close>

definition plan :: "nat \<Rightarrow> int \<Rightarrow> (int \<times> int) list" where
  "plan totalUsers BATCH_SIZE =
     (if totalUsers = 0 then []
      else map (\<lambda>batchIndex. (startIndex_of BATCH_SIZE batchIndex,
                               endIndex_of BATCH_SIZE totalUsers batchIndex))
             [0 .. totalBatches_of totalUsers BATCH_SIZE - 1])"

section \<open>Observations used to state the properties\<close>

text \<open>
  The trace of a bootstrap in which every attempt fails: attempt \<open>k\<close>, then a pause of
  \<open>2 ^ k\<close> seconds, up to the last attempt \<open>maxRetries\<close>, which is followed by no pause.
\<close>

definition schedule :: "nat \<Rightarrow> nat \<Rightarrow> conn_event list" where
  "schedule retryCount maxRetries =
     concat (map (\<lambda>k. [Attempt k, Backoff (2 ^ k * 1000)]) [retryCount ..< maxRetries])
       @ [Attempt maxRetries]"

text \<open>
  The outcome of one batch, read off the answers of the remote calls in the order in
  which lines 606-667 ask for them: the batch succeeds exactly when the estimate, the
  submission and the wait all answer and the receipt has status 1; otherwise it fails, with
  the message of the first call that threw or with the text of line 664.
\<close>

datatype outcome = Success | Failed string

definition batch_outcome :: "env \<Rightarrow> int \<Rightarrow> nat \<Rightarrow> int \<Rightarrow> outcome" where
  "batch_outcome e BATCH_SIZE totalUsers batchIndex =
     (case estimateGas e (startIndex_of BATCH_SIZE batchIndex)
             (endIndex_of BATCH_SIZE totalUsers batchIndex) of
        Inl msg \<Rightarrow> Failed msg
      | Inr gasEstimate \<Rightarrow>
          (case distributeRewardsToAll e (startIndex_of BATCH_SIZE batchIndex)
                  (endIndex_of BATCH_SIZE totalUsers batchIndex) (gasLimit_of gasEstimate) of
             Inl msg \<Rightarrow> Failed msg
           | Inr t \<Rightarrow>
               (case wait t of
                  Inl msg \<Rightarrow> Failed msg
                | Inr r \<Rightarrow> if status r = 1 then Success else Failed ''Transaction failed'')))"

text \<open>The batch indices that the loop of line 595 visits, and the outcomes of a run in that order.\<close>

definition batch_indices :: "nat \<Rightarrow> int \<Rightarrow> int list" where
  "batch_indices totalUsers BATCH_SIZE = [0 .. totalBatches_of totalUsers BATCH_SIZE - 1]"


text \<open>The entry that a batch with this outcome leaves in \<open>failedBatches\<close>.\<close>

definition failure_entry :: "int \<Rightarrow> outcome \<Rightarrow> failed_batch list" where
  "failure_entry batchIndex oc =
     (case oc of Success \<Rightarrow> [] | Failed msg \<Rightarrow> [\<lparr>batch = batchIndex + 1, error = msg\<rparr>])"

text \<open>
  A concrete remote contract for the examples: \<open>users\<close> registered users, every gas estimate answers
  21001 except the one for the range that starts at \<open>failing\<close>, which times out; every
  submitted transaction is mined with status 1.
\<close>

definition example_env :: "nat \<Rightarrow> int \<Rightarrow> env" where
  "example_env users failing =
     \<lparr>web3_ready = True,
      getUSersLengh = Inr users,
      estimateGas = (\<lambda>s e. if s = failing then Inl ''Gas estimation timeout'' else Inr 21001),
      distributeRewardsToAll =
        (\<lambda>s e g. Inr \<lparr>hash = ''0xab'', wait = Inr \<lparr>blockNumber = 7, status = 1\<rparr>\<rparr>)\<rparr>"

definition failing_conn_env :: conn_env where
  "failing_conn_env = \<lparr>private_key_usable = True, attempt = (\<lambda>k. Inl ''network down'')\<rparr>"

section \<open>The conversion of the user count\<close>

lemma bit_length_pos: "0 < n \<Longrightarrow> 0 < bit_length n"
  by (subst bit_length.simps) simp

lemma bit_length_lower: "0 < n \<Longrightarrow> 2 ^ (bit_length n - 1) \<le> n"
proof (induction n rule: bit_length.induct)
  case (1 n)
  from "1.prems" have bl: "bit_length n = Suc (bit_length (n div 2))"
    by (subst bit_length.simps) simp
  show ?case
  proof (cases "n div 2 = 0")
    case True
    then have "bit_length (n div 2) = 0" by (subst bit_length.simps) simp
    with bl "1.prems" show ?thesis by simp
  next
    case False
    then have pos: "0 < n div 2" by simp
    from "1.IH" "1.prems" pos have ih: "2 ^ (bit_length (n div 2) - 1) \<le> n div 2" by simp
    from bit_length_pos[OF pos] obtain k where k: "bit_length (n div 2) = Suc k"
      by (cases "bit_length (n div 2)") auto
    have "(2::nat) ^ (bit_length n - 1) = 2 * 2 ^ (bit_length (n div 2) - 1)"
      by (simp add: bl k)
    also have "\<dots> \<le> 2 * (n div 2)" using ih by simp
    also have "\<dots> \<le> n" by simp
    finally show ?thesis .
  qed
qed

lemma Number_of_exact: "n \<le> 2 ^ 53 \<Longrightarrow> Number_of n = int n"
  by (simp add: Number_of_def)

lemma Number_of_zero: "Number_of 0 = 0"
  by (simp add: Number_of_def)

lemma Number_of_pos: "0 < n \<Longrightarrow> 0 < Number_of n"
proof (cases "n \<le> 2 ^ 53")
  case True
  assume "0 < n"
  with True show ?thesis by (simp add: Number_of_def)
next
  case False
  assume n: "0 < n"
  let ?e = "bit_length n - 53"
  have "(2::nat) ^ ?e \<le> 2 ^ (bit_length n - 1)"
    by (rule power_increasing) simp_all
  also have "\<dots> \<le> n" by (rule bit_length_lower[OF n])
  finally have "1 \<le> n div 2 ^ ?e" by (simp add: div_greater_zero_iff Suc_le_eq)
  then have "0 < (if n mod 2 ^ ?e > 2 ^ (?e - 1) \<or> (n mod 2 ^ ?e = 2 ^ (?e - 1) \<and> odd (n div 2 ^ ?e))
                  then n div 2 ^ ?e + 1 else n div 2 ^ ?e) * 2 ^ ?e"
    by simp
  with False show ?thesis by (simp add: Number_of_def Let_def)
qed

lemma bit_length_example: "bit_length 9007199254740993 = 54"
  by (simp add: bit_length.simps)

lemma Number_of_rounds_to_even: "Number_of 9007199254740993 = 9007199254740992"
  by (simp add: Number_of_def bit_length_example)


section \<open>Arithmetic of the batch count\<close>

lemma totalBatches_bounds:
  assumes "0 < B"
  shows "(totalBatches_of n B - 1) * B < Number_of n"
    and "Number_of n \<le> totalBatches_of n B * B"
proof -
  let ?x = "real_of_int (Number_of n) / real_of_int B"
  have B: "0 < real_of_int B" using assms by simp
  have lo: "real_of_int \<lceil>?x\<rceil> - 1 < ?x" by linarith
  have hi: "?x \<le> real_of_int \<lceil>?x\<rceil>" by (rule le_of_int_ceiling)
  from lo have "(real_of_int \<lceil>?x\<rceil> - 1) * real_of_int B < real_of_int (Number_of n)"
    by (simp only: pos_less_divide_eq[OF B])
  moreover from hi have "real_of_int (Number_of n) \<le> real_of_int \<lceil>?x\<rceil> * real_of_int B"
    by (simp only: pos_divide_le_eq[OF B])
  ultimately have "real_of_int ((\<lceil>?x\<rceil> - 1) * B) < real_of_int (Number_of n)"
    and "real_of_int (Number_of n) \<le> real_of_int (\<lceil>?x\<rceil> * B)"
    by simp_all
  then show "(totalBatches_of n B - 1) * B < Number_of n"
    and "Number_of n \<le> totalBatches_of n B * B"
    unfolding totalBatches_of_def by (simp_all only: of_int_less_iff of_int_le_iff)
qed

lemma totalBatches_pos: "0 < B \<Longrightarrow> 0 < n \<Longrightarrow> 0 < totalBatches_of n B"
  using Number_of_pos[of n] unfolding totalBatches_of_def by simp

lemma totalBatches_zero: "totalBatches_of 0 B = 0"
  unfolding totalBatches_of_def by (simp add: Number_of_zero)


lemma start_lt_total:
  assumes "0 < B" "0 \<le> i" "i < totalBatches_of n B"
  shows "i * B < Number_of n"
proof -
  have "i * B \<le> (totalBatches_of n B - 1) * B"
    using assms by (intro mult_right_mono) auto
  with totalBatches_bounds(1)[OF assms(1), of n] show ?thesis by linarith
qed

lemma end_inner:
  assumes "0 < B" "0 \<le> i" "i < totalBatches_of n B - 1"
  shows "endIndex_of B n i = i * B + B - 1"
proof -
  have "(i + 1) * B \<le> (totalBatches_of n B - 1) * B"
    using assms by (intro mult_right_mono) auto
  with totalBatches_bounds(1)[OF assms(1), of n] have "(i + 1) * B < Number_of n" by linarith
  then show ?thesis
    unfolding endIndex_of_def startIndex_of_def by (simp add: algebra_simps)
qed

lemma end_last:
  assumes "0 < B"
  shows "endIndex_of B n (totalBatches_of n B - 1) = Number_of n - 1"
  using totalBatches_bounds(2)[OF assms, of n]
  unfolding endIndex_of_def startIndex_of_def by (simp add: algebra_simps)


section \<open>The list of ranges\<close>

lemma plan_length: "0 < B \<Longrightarrow> length (plan n B) = nat (totalBatches_of n B)"
  by (simp add: plan_def totalBatches_zero)

lemma plan_nth:
  assumes "0 < B" "i < length (plan n B)"
  shows "plan n B ! i = (startIndex_of B (int i), endIndex_of B n (int i))"
proof -
  from assms have n: "n \<noteq> 0" by (auto simp: plan_def split: if_splits)
  from assms have i: "int i \<le> totalBatches_of n B - 1"
    by (simp add: plan_length)
  have "[0 .. totalBatches_of n B - 1] ! i = 0 + int i"
    by (rule nth_upto) (use i in simp)
  with assms n show ?thesis by (simp add: plan_def)
qed

lemma plan_set:
  "0 < B \<Longrightarrow> set (plan n B) =
     (\<lambda>i. (startIndex_of B i, endIndex_of B n i)) ` {0 .. totalBatches_of n B - 1}"
  by (auto simp: plan_def totalBatches_zero)

lemma plan_union:
  assumes B: "0 < B"
  shows "(\<Union>(s, e) \<in> set (plan n B). {s .. e}) = {0 .. Number_of n - 1}"
proof (intro equalityI subsetI)
  fix x assume "x \<in> (\<Union>(s, e) \<in> set (plan n B). {s .. e})"
  then obtain i where i: "0 \<le> i" "i \<le> totalBatches_of n B - 1"
    and x: "startIndex_of B i \<le> x" "x \<le> endIndex_of B n i"
    by (auto simp: plan_set[OF B])
  have "0 \<le> i * B" using i B by simp
  with x show "x \<in> {0 .. Number_of n - 1}"
    by (simp add: startIndex_of_def endIndex_of_def)
next
  fix x assume "x \<in> {0 .. Number_of n - 1}"
  then have x: "0 \<le> x" "x < Number_of n" by auto
  let ?i = "x div B"
  have dm: "?i * B + x mod B = x" by (rule div_mult_mod_eq)
  have m0: "0 \<le> x mod B" and m1: "x mod B < B" using B by simp_all
  have lo: "?i * B \<le> x" using dm m0 by linarith
  have hi: "x \<le> ?i * B + B - 1" using dm m1 by linarith
  have i0: "0 \<le> ?i" using x B by (simp add: pos_imp_zdiv_nonneg_iff)
  have "?i * B < totalBatches_of n B * B"
    using lo x totalBatches_bounds(2)[OF B, of n] by linarith
  then have i1: "?i < totalBatches_of n B"
    using B by (simp only: mult_less_cancel_right_pos)
  have "x \<in> {startIndex_of B ?i .. endIndex_of B n ?i}"
    using lo hi x by (simp add: startIndex_of_def endIndex_of_def)
  moreover have "(startIndex_of B ?i, endIndex_of B n ?i) \<in> set (plan n B)"
    using i0 i1 by (simp add: plan_set[OF B])
  ultimately show "x \<in> (\<Union>(s, e) \<in> set (plan n B). {s .. e})" by blast
qed

text \<open>
  For a count that \<open>Number\<close> converts exactly, the list of ranges is the partition of
  \<open>[0, n - 1]\<close> into consecutive ranges of the batch size.
\<close>

lemma plan_is_partition:
  assumes n: "n \<le> 2 ^ 53" and B: "0 < B"
  shows "length (plan n B) = nat \<lceil>real n / real_of_int B\<rceil>
    \<and> (\<forall>i < length (plan n B).
          plan n B ! i = (int i * B, min ((int i + 1) * B - 1) (int n - 1)))
    \<and> (\<forall>i < length (plan n B). fst (plan n B ! i) \<le> snd (plan n B ! i))
    \<and> (\<forall>i. Suc i < length (plan n B) \<longrightarrow> fst (plan n B ! Suc i) = snd (plan n B ! i) + 1)
    \<and> (\<forall>i j. i < j \<and> j < length (plan n B) \<longrightarrow> snd (plan n B ! i) < fst (plan n B ! j))
    \<and> (\<Union>(s, e) \<in> set (plan n B). {s .. e}) = {0 .. int n - 1}
    \<and> (plan n B = [] \<longleftrightarrow> n = 0)"
proof (intro conjI allI impI iffI)
  note N = Number_of_exact[OF n]
  show "length (plan n B) = nat \<lceil>real n / real_of_int B\<rceil>"
    using plan_length[OF B] by (simp add: totalBatches_of_def N)
next
  note N = Number_of_exact[OF n]
  fix i assume "i < length (plan n B)"
  then show "plan n B ! i = (int i * B, min ((int i + 1) * B - 1) (int n - 1))"
    using plan_nth[OF B] by (simp add: startIndex_of_def endIndex_of_def N algebra_simps)
next
  note N = Number_of_exact[OF n]
  fix i assume i: "i < length (plan n B)"
  then have "int i < totalBatches_of n B" by (simp add: plan_length[OF B])
  then have "int i * B < int n" using start_lt_total[OF B, of "int i" n] by (simp add: N)
  then show "fst (plan n B ! i) \<le> snd (plan n B ! i)"
    using B by (simp add: plan_nth[OF B i] startIndex_of_def endIndex_of_def N)
next
  fix i assume i: "Suc i < length (plan n B)"
  then have "int i < totalBatches_of n B - 1" by (simp add: plan_length[OF B])
  then have "endIndex_of B n (int i) = int i * B + B - 1"
    using end_inner[OF B, of "int i" n] by simp
  moreover have "i < length (plan n B)" using i by simp
  ultimately show "fst (plan n B ! Suc i) = snd (plan n B ! i) + 1"
    using i by (simp add: plan_nth[OF B] startIndex_of_def algebra_simps)
next
  fix i j assume ij: "i < j \<and> j < length (plan n B)"
  then have i: "i < length (plan n B)" and j: "j < length (plan n B)" by auto
  have "(int i + 1) * B \<le> int j * B"
    using ij B by (intro mult_right_mono) auto
  then have "int i * B + B - 1 < int j * B" by (simp add: algebra_simps)
  then show "snd (plan n B ! i) < fst (plan n B ! j)"
    by (simp add: plan_nth[OF B i] plan_nth[OF B j] startIndex_of_def endIndex_of_def)
next
  show "(\<Union>(s, e) \<in> set (plan n B). {s .. e}) = {0 .. int n - 1}"
    using plan_union[OF B, of n] by (simp add: Number_of_exact[OF n])
next
  assume "plan n B = []"
  then have "length (plan n B) = 0" by simp
  then have "totalBatches_of n B \<le> 0" by (simp add: plan_length[OF B])
  then show "n = 0" using totalBatches_pos[OF B, of n] by (cases "n = 0") auto
next
  assume "n = 0"
  then show "plan n B = []" by (simp add: plan_def)
qed

section \<open>What one batch and the loop add to the state\<close>

lemmas pb_defs = process_batch_def batch_outcome_def failure_entry_def Let_def emit_def
  record_failure_def rate_limit_def




lemma process_batch_events:
  "events (process_batch e B n tb i st) =
     events st @ events (process_batch e B n tb i
       \<lparr>successCount = 0, failureCount = 0, failedBatches = [], events = []\<rparr>)"
  by (simp add: pb_defs split: sum.splits)




lemma loop_events:
  "events (batch_loop e B n tb i st) =
     events st @ concat (map (\<lambda>j. events (process_batch e B n tb j
       \<lparr>successCount = 0, failureCount = 0, failedBatches = [], events = []\<rparr>)) [i .. tb - 1])"
proof (induction e B n tb i st rule: batch_loop.induct)
  case (1 e B n tb i st)
  show ?case
  proof (cases "i < tb")
    case True
    then have u: "[i .. tb - 1] = i # [i + 1 .. tb - 1]" by (simp add: upto_rec1)
    show ?thesis
      using True 1[OF True]
      by (subst batch_loop.simps) (simp add: u process_batch_events[of e B n tb i st])
  next
    case False
    then show ?thesis by (subst batch_loop.simps) simp
  qed
qed






lemma concat_singletons: "concat (map (\<lambda>x. [f x]) xs) = map f xs"
  by (induction xs) simp_all

section \<open>The result and the trace of a run\<close>

lemma run_ready:
  assumes "web3_ready e" "getUSersLengh e = Inr n" "0 < n"
  shows "distributeRewardsInBatches e B =
    (let tb = totalBatches_of n B; st = batch_loop e B n tb 0 initial_state
     in (Summary (successCount st > 0) tb (successCount st) (failureCount st) (failedBatches st)
           (show_nat (successCount st) @ ''/'' @ show_int tb @ '' batches completed successfully''),
         events st @ [StatusLine (status_of (successCount st) tb)]))"
  using assms by (simp add: distributeRewardsInBatches_def run_body_def Let_def)











lemma run_events_ready:
  assumes "web3_ready e" "getUSersLengh e = Inr n" "0 < n"
  shows "run_events e B = GetUsersLength #
     concat (map (\<lambda>j. events (process_batch e B n (totalBatches_of n B) j
       \<lparr>successCount = 0, failureCount = 0, failedBatches = [], events = []\<rparr>)) (batch_indices n B))
     @ [StatusLine (status_of (r_successCount (run_summary e B)) (totalBatches_of n B))]"
  by (simp add: run_events_def run_summary_def run_ready[OF assms] Let_def loop_events
      initial_state_def batch_indices_def)



text \<open>
  The gas estimates of a run are asked for exactly the ranges of \<open>plan\<close>, in that order:
  \<open>plan\<close> is the partition that the loop walks through.
\<close>

lemma estimated_ranges_append:
  "estimated_ranges (xs @ ys) = estimated_ranges xs @ estimated_ranges ys"
  by (simp add: estimated_ranges_def)

lemma estimated_ranges_Nil: "estimated_ranges [] = []"
  by (simp add: estimated_ranges_def)

lemma estimated_ranges_Cons:
  "estimated_ranges (ev # evs) =
     (case ev of EstimateGas s t \<Rightarrow> [(s, t)] | _ \<Rightarrow> []) @ estimated_ranges evs"
  by (simp add: estimated_ranges_def)

lemma estimated_ranges_concat:
  "estimated_ranges (concat xss) = concat (map estimated_ranges xss)"
  by (induction xss) (simp_all add: estimated_ranges_append estimated_ranges_Nil)

lemma estimated_ranges_batch:
  "estimated_ranges (events (process_batch e B n tb j
       \<lparr>successCount = 0, failureCount = 0, failedBatches = [], events = []\<rparr>))
     = [(startIndex_of B j, endIndex_of B n j)]"
  by (simp add: pb_defs estimated_ranges_def split: sum.splits)

lemma run_visits_plan:
  assumes "web3_ready e" and "getUSersLengh e = Inr n"
  shows "estimated_ranges (run_events e B) = plan n B"
proof (cases "n = 0")
  case True
  with assms show ?thesis
    by (simp add: run_events_def distributeRewardsInBatches_def run_body_def plan_def
        estimated_ranges_Cons estimated_ranges_Nil)
next
  case False
  then have n: "0 < n" by simp
  show ?thesis
    unfolding run_events_ready[OF assms n]
    using False
    by (simp add: estimated_ranges_append estimated_ranges_concat comp_def
        estimated_ranges_batch concat_singletons plan_def batch_indices_def
        estimated_ranges_Cons estimated_ranges_Nil)
qed

section \<open>The retry schedule of the bootstrap\<close>

lemma schedule_step:
  "r < m \<Longrightarrow> schedule r m = Attempt r # Backoff (2 ^ r * 1000) # schedule (Suc r) m"
  by (simp add: schedule_def upt_rec[of r m])

lemma schedule_last: "schedule m m = [Attempt m]"
  by (simp add: schedule_def)

lemma schedule_hd: "r \<le> m \<Longrightarrow> take 1 (schedule r m) = [Attempt r]"
  by (cases "r < m") (simp_all add: schedule_step schedule_last)

lemma schedule_default:
  "schedule 0 3 = [Attempt 0, Backoff 1000, Attempt 1, Backoff 2000, Attempt 2, Backoff 4000, Attempt 3]"
proof -
  have "[0 ..< 3 :: nat] = [0, 1, 2]" by (simp add: upt_conv_Cons)
  then show ?thesis by (simp add: schedule_def)
qed

lemma bootstrap_prefix:
  "r \<le> m \<Longrightarrow> \<exists>k. snd (initializeWeb3 c r m) = take k (schedule r m)"
proof (induction c r m rule: initializeWeb3.induct)
  case (1 c r m)
  show ?case
  proof (cases "private_key_usable c")
    case False
    then have "snd (initializeWeb3 c r m) = take 0 (schedule r m)"
      by (subst initializeWeb3.simps) simp
    then show ?thesis by blast
  next
    case key: True
    show ?thesis
    proof (cases "attempt c r")
      case (Inr ok)
      then have "snd (initializeWeb3 c r m) = take 1 (schedule r m)"
        using key schedule_hd[OF "1.prems"] by (subst initializeWeb3.simps) simp
      then show ?thesis by blast
    next
      case (Inl msg)
      show ?thesis
      proof (cases "r < m")
        case True
        from "1.IH"[OF _ Inl True refl] key True
        obtain k where k: "snd (initializeWeb3 c (r + 1) m) = take k (schedule (r + 1) m)"
          by auto
        have "snd (initializeWeb3 c r m) = take (Suc (Suc k)) (schedule r m)"
          using key Inl True k
          by (subst initializeWeb3.simps) (simp add: schedule_step Let_def)
        then show ?thesis by blast
      next
        case False
        with "1.prems" have "r = m" by simp
        then have "snd (initializeWeb3 c r m) = take 1 (schedule r m)"
          using key Inl by (subst initializeWeb3.simps) (simp add: schedule_last)
        then show ?thesis by blast
      qed
    qed
  qed
qed

lemma bootstrap_attempts:
  "r \<le> m \<Longrightarrow> length (attempts (snd (initializeWeb3 c r m))) \<le> Suc m - r"
proof (induction c r m rule: initializeWeb3.induct)
  case (1 c r m)
  show ?case
  proof (cases "private_key_usable c \<and> (\<exists>msg. attempt c r = Inl msg) \<and> r < m")
    case True
    then obtain msg where a: "private_key_usable c" "attempt c r = Inl msg" "r < m" by blast
    from "1.IH"[OF _ a(2) a(3) refl] a(1) a(3)
    have "length (attempts (snd (initializeWeb3 c (r + 1) m))) \<le> Suc m - (r + 1)" by simp
    then show ?thesis
      using a by (subst initializeWeb3.simps) (simp add: attempts_def Let_def)
  next
    case False
    then show ?thesis
      using "1.prems"
      by (subst initializeWeb3.simps) (auto simp: attempts_def split: sum.splits)
  qed
qed

lemma bootstrap_backoff_total:
  "r \<le> m \<Longrightarrow> sum_list (backoffs (snd (initializeWeb3 c r m))) + 2 ^ r * 1000 \<le> 2 ^ m * 1000"
proof (induction c r m rule: initializeWeb3.induct)
  case (1 c r m)
  have pw: "(2::nat) ^ r \<le> 2 ^ m" using "1.prems" by simp
  show ?case
  proof (cases "private_key_usable c \<and> (\<exists>msg. attempt c r = Inl msg) \<and> r < m")
    case True
    then obtain msg where a: "private_key_usable c" "attempt c r = Inl msg" "r < m" by blast
    from "1.IH"[OF _ a(2) a(3) refl] a(1) a(3)
    have "sum_list (backoffs (snd (initializeWeb3 c (r + 1) m))) + 2 ^ (r + 1) * 1000
            \<le> 2 ^ m * 1000" by simp
    then show ?thesis
      using a by (subst initializeWeb3.simps) (simp add: backoffs_def Let_def)
  next
    case False
    then show ?thesis
      using pw by (subst initializeWeb3.simps) (auto simp: backoffs_def split: sum.splits)
  qed
qed

lemma bootstrap_all_fail:
  "r \<le> m \<Longrightarrow> private_key_usable c \<Longrightarrow> (\<forall>k. r \<le> k \<and> k \<le> m \<longrightarrow> (\<exists>msg. attempt c k = Inl msg))
     \<Longrightarrow> initializeWeb3 c r m = (False, schedule r m)"
proof (induction c r m rule: initializeWeb3.induct)
  case (1 c r m)
  from "1.prems" obtain msg where a: "attempt c r = Inl msg" by blast
  show ?case
  proof (cases "r < m")
    case True
    have "initializeWeb3 c (r + 1) m = (False, schedule (r + 1) m)"
      using "1.IH"[OF _ a True refl] "1.prems" True by simp
    then show ?thesis
      using a True "1.prems"(2)
      by (subst initializeWeb3.simps) (simp add: schedule_step Let_def)
  next
    case False
    with "1.prems" have "r = m" by simp
    then show ?thesis
      using a "1.prems"(2) by (subst initializeWeb3.simps) (simp add: schedule_last)
  qed
qed

section \<open>Two example runs\<close>

text \<open>
  250 users in batches of 100, and 25 users in batches of 10; in both the gas estimate of the
  second batch times out and the other two batches are mined.
\<close>

lemma show_examples: "show_nat (Suc (Suc 0)) = ''2''" "show_int 3 = ''3''"
  by (simp_all add: show_nat.simps show_int_def digit_char_def)

lemmas run_eval = distributeRewardsInBatches_def run_body_def totalBatches_of_def Number_of_def batch_loop.simps
  process_batch_def Let_def emit_def record_failure_def rate_limit_def initial_state_def
  example_env_def startIndex_of_def endIndex_of_def gasLimit_of_def status_of_def show_examples

lemma example_run_100:
  "distributeRewardsInBatches (example_env 250 100) 100 =
    (Summary True 3 2 1 [\<lparr>batch = 2, error = ''Gas estimation timeout''\<rparr>]
       ''2/3 batches completed successfully'',
     [GetUsersLength, EstimateGas 0 99, Submit 0 99 25201, WaitTx ''0xab'', Sleep 5000,
      EstimateGas 100 199,
      EstimateGas 200 249, Submit 200 249 25201, WaitTx ''0xab'',
      StatusLine PartialSuccess])"
  by (simp add: run_eval)



lemma example_ready:
  "web3_ready (example_env 250 100)" "getUSersLengh (example_env 250 100) = Inr 250"
  by (simp_all add: example_env_def)

section \<open>The properties\<close>

text \<open>
  Claim C1, as the code has it. For every user count up to \<open>2 ^ 53\<close> and every positive
  batch size, the ranges that a run works through are \<open>\<lceil>totalUsers / BATCH_SIZE\<rceil>\<close> in
  number, range \<open>i\<close> is \<open>[i * BATCH_SIZE, min ((i + 1) * BATCH_SIZE - 1) (totalUsers - 1)]\<close>,
  every range is non-empty, each range starts right after the previous one ends, an
  earlier range lies entirely below a later one, the union of the ranges is
  \<open>[0, totalUsers - 1]\<close>, and there is no range exactly when there is no user.
\<close>

theorem run_ranges_partition:
  assumes "web3_ready e" and "getUSersLengh e = Inr n" and "n \<le> 2 ^ 53" and "0 < B"
  shows "length (run_ranges e B) = nat \<lceil>real n / real_of_int B\<rceil>
    \<and> (\<forall>i < length (run_ranges e B).
          run_ranges e B ! i = (int i * B, min ((int i + 1) * B - 1) (int n - 1)))
    \<and> (\<forall>i < length (run_ranges e B). fst (run_ranges e B ! i) \<le> snd (run_ranges e B ! i))
    \<and> (\<forall>i. Suc i < length (run_ranges e B) \<longrightarrow>
          fst (run_ranges e B ! Suc i) = snd (run_ranges e B ! i) + 1)
    \<and> (\<forall>i j. i < j \<and> j < length (run_ranges e B) \<longrightarrow>
          snd (run_ranges e B ! i) < fst (run_ranges e B ! j))
    \<and> (\<Union>(s, t) \<in> set (run_ranges e B). {s .. t}) = {0 .. int n - 1}
    \<and> (run_ranges e B = [] \<longleftrightarrow> n = 0)"
proof -
  have eq: "run_ranges e B = plan n B"
    unfolding run_ranges_def by (rule run_visits_plan[OF assms(1,2)])
  show ?thesis
    unfolding eq by (rule plan_is_partition[OF assms(3,4)])
qed

theorem run_ranges_partition_witness:
  "web3_ready (example_env 250 100) \<and> getUSersLengh (example_env 250 100) = Inr 250
   \<and> (250::nat) \<le> 2 ^ 53 \<and> (0::int) < 100
   \<and> run_ranges (example_env 250 100) 100 = [(0, 99), (100, 199), (200, 249)]
   \<and> length (run_ranges (example_env 250 100) 100) = 3
   \<and> (\<Union>(s, t) \<in> set (run_ranges (example_env 250 100) 100). {s .. t}) = {0 .. 249}"
proof -
  have n: "(250::nat) \<le> 2 ^ 53" and B: "(0::int) < 100" by simp_all
  have r: "run_ranges (example_env 250 100) 100 = [(0, 99), (100, 199), (200, 249)]"
    by (simp add: run_ranges_def run_events_def example_run_100 estimated_ranges_Cons
        estimated_ranges_Nil)
  from run_ranges_partition[OF example_ready n B] have
    "length (run_ranges (example_env 250 100) 100) = nat \<lceil>real 250 / real_of_int 100\<rceil>"
    "(\<Union>(s, t) \<in> set (run_ranges (example_env 250 100) 100). {s .. t}) = {0 .. int 250 - 1}"
    by blast+
  then show ?thesis using example_ready n B r by simp
qed

text \<open>
  The claim as the specification words it holds for every count. With
  \<open>2 ^ 53 + 1 = 9007199254740993\<close> users and batch size 1, \<open>Number\<close> rounds the count to
  \<open>2 ^ 53\<close>: the run works through \<open>2 ^ 53\<close> ranges, not \<open>2 ^ 53 + 1\<close>, its last range is
  \<open>[2 ^ 53 - 1, 2 ^ 53 - 1]\<close>, and no range holds the last user, index \<open>2 ^ 53\<close>.
\<close>

theorem run_ranges_rounded_count_counterexample:
  "web3_ready (example_env 9007199254740993 (- 1))
   \<and> getUSersLengh (example_env 9007199254740993 (- 1)) = Inr 9007199254740993
   \<and> nat \<lceil>real 9007199254740993 / real_of_int 1\<rceil> = 9007199254740993
   \<and> length (run_ranges (example_env 9007199254740993 (- 1)) 1) = 9007199254740992
   \<and> run_ranges (example_env 9007199254740993 (- 1)) 1 ! 9007199254740991
        = (9007199254740991, 9007199254740991)
   \<and> (9007199254740992, 9007199254740992)
        \<notin> set (run_ranges (example_env 9007199254740993 (- 1)) 1)"
proof -
  have h: "web3_ready (example_env 9007199254740993 (- 1))"
    "getUSersLengh (example_env 9007199254740993 (- 1)) = Inr 9007199254740993"
    by (simp_all add: example_env_def)
  have r: "run_ranges (example_env 9007199254740993 (- 1)) 1 = plan 9007199254740993 1"
    unfolding run_ranges_def by (rule run_visits_plan[OF h])
  have N: "Number_of 9007199254740993 = 9007199254740992"
    by (rule Number_of_rounds_to_even)
  have tb: "totalBatches_of 9007199254740993 1 = 9007199254740992"
    by (simp add: totalBatches_of_def N)
  have B: "(0::int) < 1" by simp
  have len: "length (plan 9007199254740993 1) = 9007199254740992"
    using plan_length[OF B, of 9007199254740993] by (simp add: tb)
  have "(9007199254740991::nat) < length (plan 9007199254740993 1)"
    by (simp add: len)
  from plan_nth[OF B this]
  have last: "plan 9007199254740993 1 ! 9007199254740991 = (9007199254740991, 9007199254740991)"
    by (simp add: startIndex_of_def endIndex_of_def N)
  have out: "(9007199254740992, 9007199254740992) \<notin> set (plan 9007199254740993 1)"
    by (auto simp: plan_set[OF B] tb startIndex_of_def)
  from h r len last out show ?thesis by simp
qed











text \<open>
  Claim C6 does not hold of the code. In the run of 250 users in batches of 100 whose second
  gas estimate times out, the estimate for the third range follows the failed one with no
  pause in between: the \<open>continue\<close> of line 625 leaves the iteration before the pause of
  lines 669-673, which the first batch, being mined, does reach.
\<close>

theorem no_pause_after_failed_estimate:
  "run_events (example_env 250 100) 100 =
     [GetUsersLength,
      EstimateGas 0 99, Submit 0 99 25201, WaitTx ''0xab'', Sleep 5000,
      EstimateGas 100 199,
      EstimateGas 200 249, Submit 200 249 25201, WaitTx ''0xab'',
      StatusLine PartialSuccess]"
  by (simp add: run_events_def example_run_100)

text \<open>
  Claim C7. When the contract reports no user, the run returns the successful object of
  line 582 after the single count query: there is no range, no gas estimate is asked and
  no transaction is submitted.
\<close>

theorem zero_users_nothing_to_do:
  assumes "web3_ready e" and "getUSersLengh e = Inr 0"
  shows "distributeRewardsInBatches e B = (Skipped True ''No users to process'', [GetUsersLength])
    \<and> r_success (run_summary e B)
    \<and> plan 0 B = []
    \<and> (\<forall>s e' g. Submit s e' g \<notin> set (run_events e B))
    \<and> (\<forall>s e'. EstimateGas s e' \<notin> set (run_events e B))"
  using assms
  by (simp add: distributeRewardsInBatches_def run_body_def run_summary_def run_events_def
      plan_def)

theorem zero_users_nothing_to_do_witness:
  "web3_ready (example_env 0 0) \<and> getUSersLengh (example_env 0 0) = Inr 0
   \<and> distributeRewardsInBatches (example_env 0 0) 100
        = (Skipped True ''No users to process'', [GetUsersLength])
   \<and> Submit 0 99 25201 \<notin> set (run_events (example_env 0 0) 100)"
proof -
  have h: "web3_ready (example_env 0 0)" "getUSersLengh (example_env 0 0) = Inr 0"
    by (simp_all add: example_env_def)
  from zero_users_nothing_to_do[OF h, of 100] show ?thesis using h by blast
qed

text \<open>
  Claim C8, as the code has it. A configured batch size of zero or less never fails and
  is never used: the batch size becomes the default 100, with the warning of line 63 for
  a negative value and with no warning for 0, which line 55 has already replaced; and a
  run with the configured value is the run with batch size 100. Likewise a value above
  1000 becomes 100 with the warning and an unparsable or absent one becomes 100 without
  it; a value from 1 to 1000 is kept. The batch size that \<open>getConfig\<close> returns is always
  between 1 and 1000.
\<close>

theorem invalid_batch_size_falls_back:
  "(v < 0 \<or> 1000 < v \<longrightarrow> getConfig_BATCH_SIZE (Num v) = (100, [InvalidBatchSize v]))
   \<and> getConfig_BATCH_SIZE (Num 0) = (100, [])
   \<and> getConfig_BATCH_SIZE NaN = (100, [])
   \<and> (1 \<le> v \<and> v \<le> 1000 \<longrightarrow> getConfig_BATCH_SIZE (Num v) = (v, []))
   \<and> (v \<le> 0 \<longrightarrow> fst (getConfig_BATCH_SIZE (Num v)) = 100
         \<and> distributeRewardsInBatches e (fst (getConfig_BATCH_SIZE (Num v)))
             = distributeRewardsInBatches e 100)
   \<and> 1 \<le> fst (getConfig_BATCH_SIZE p) \<and> fst (getConfig_BATCH_SIZE p) \<le> 1000"
proof -
  have 1: "getConfig_BATCH_SIZE (Num v) = (100, [InvalidBatchSize v])" if "v < 0 \<or> 1000 < v"
    using that by (auto simp: getConfig_BATCH_SIZE_def or_default_def Let_def)
  have 2: "getConfig_BATCH_SIZE (Num 0) = (100, [])" "getConfig_BATCH_SIZE NaN = (100, [])"
    by (simp_all add: getConfig_BATCH_SIZE_def or_default_def)
  have 3: "getConfig_BATCH_SIZE (Num v) = (v, [])" if "1 \<le> v \<and> v \<le> 1000"
    using that by (auto simp: getConfig_BATCH_SIZE_def or_default_def Let_def)
  have 4: "fst (getConfig_BATCH_SIZE (Num v)) = 100" if "v \<le> 0"
    using that by (auto simp: getConfig_BATCH_SIZE_def or_default_def Let_def)
  have 5: "1 \<le> fst (getConfig_BATCH_SIZE p) \<and> fst (getConfig_BATCH_SIZE p) \<le> 1000"
    by (cases p) (auto simp: getConfig_BATCH_SIZE_def or_default_def Let_def)
  from 1 2 3 4 5 show ?thesis by simp
qed

theorem invalid_batch_size_falls_back_witness:
  "(- 5::int) < 0 \<and> getConfig_BATCH_SIZE (Num (- 5)) = (100, [InvalidBatchSize (- 5)])
   \<and> getConfig_BATCH_SIZE (Num 0) = (100, [])
   \<and> distributeRewardsInBatches (example_env 250 100) (fst (getConfig_BATCH_SIZE (Num (- 5))))
        = distributeRewardsInBatches (example_env 250 100) 100
   \<and> getConfig_BATCH_SIZE (Num 50) = (50, [])"
  using invalid_batch_size_falls_back[of "- 5" "example_env 250 100" NaN]
    invalid_batch_size_falls_back[of 50 "example_env 250 100" NaN]
  by simp

text \<open>
  The claim as the specification words it makes the planner fail on a batch size of zero or
  less. With the configured value -5 the batch size is 100, and the run over 250 users
  works through three ranges.
\<close>

theorem invalid_batch_size_counterexample:
  "getConfig_BATCH_SIZE (Num (- 5)) = (100, [InvalidBatchSize (- 5)])
   \<and> run_ranges (example_env 250 100) (fst (getConfig_BATCH_SIZE (Num (- 5))))
        = [(0, 99), (100, 199), (200, 249)]"
proof -
  have c: "getConfig_BATCH_SIZE (Num (- 5)) = (100, [InvalidBatchSize (- 5)])"
    by (simp add: getConfig_BATCH_SIZE_def or_default_def)
  have "run_ranges (example_env 250 100) 100 = [(0, 99), (100, 199), (200, 249)]"
    by (simp add: run_ranges_def run_events_def example_run_100 estimated_ranges_Cons
        estimated_ranges_Nil)
  with c show ?thesis by simp
qed

text \<open>
  Claim C9. Whatever the attempts answer, the trace of the bootstrap is a prefix of
  attempt 0, 1 s, attempt 1, 2 s, attempt 2, 4 s, attempt 3: at most four attempts, the
  pause after attempt \<open>k\<close> being \<open>2 ^ k\<close> seconds, at most 7 s of pauses in all; and when
  all four attempts fail the bootstrap returns \<open>false\<close> after exactly that trace. The same
  holds for any \<open>retryCount \<le> maxRetries\<close>: at most \<open>maxRetries + 1 - retryCount\<close>
  attempts and less than \<open>2 ^ maxRetries\<close> seconds of pauses. \<open>initializeWeb3\<close> is a total
  function, so it always returns.
\<close>

theorem bootstrap_is_bounded:
  "(\<exists>k. snd (startServer_initializeWeb3 c) =
        take k [Attempt 0, Backoff 1000, Attempt 1, Backoff 2000, Attempt 2, Backoff 4000, Attempt 3])
   \<and> length (attempts (snd (startServer_initializeWeb3 c))) \<le> 4
   \<and> sum_list (backoffs (snd (startServer_initializeWeb3 c))) \<le> 7000
   \<and> (private_key_usable c \<and> (\<forall>k \<le> 3. \<exists>msg. attempt c k = Inl msg) \<longrightarrow>
        startServer_initializeWeb3 c =
          (False, [Attempt 0, Backoff 1000, Attempt 1, Backoff 2000, Attempt 2, Backoff 4000,
                   Attempt 3]))
   \<and> (r \<le> m \<longrightarrow> (\<exists>k. snd (initializeWeb3 c r m) = take k (schedule r m)))
   \<and> (r \<le> m \<longrightarrow> length (attempts (snd (initializeWeb3 c r m))) \<le> Suc m - r)
   \<and> (r \<le> m \<longrightarrow> sum_list (backoffs (snd (initializeWeb3 c r m))) + 2 ^ r * 1000 \<le> 2 ^ m * 1000)"
proof -
  have 1: "\<exists>k. snd (startServer_initializeWeb3 c) =
        take k [Attempt 0, Backoff 1000, Attempt 1, Backoff 2000, Attempt 2, Backoff 4000, Attempt 3]"
    using bootstrap_prefix[of 0 3 c] by (simp add: startServer_initializeWeb3_def schedule_default)
  have 2: "length (attempts (snd (startServer_initializeWeb3 c))) \<le> 4"
    using bootstrap_attempts[of 0 3 c] by (simp add: startServer_initializeWeb3_def)
  have 3: "sum_list (backoffs (snd (startServer_initializeWeb3 c))) \<le> 7000"
    using bootstrap_backoff_total[of 0 3 c] by (simp add: startServer_initializeWeb3_def)
  have 4: "startServer_initializeWeb3 c =
          (False, [Attempt 0, Backoff 1000, Attempt 1, Backoff 2000, Attempt 2, Backoff 4000,
                   Attempt 3])"
    if "private_key_usable c \<and> (\<forall>k \<le> 3. \<exists>msg. attempt c k = Inl msg)"
    using bootstrap_all_fail[of 0 3 c] that
    by (simp add: startServer_initializeWeb3_def schedule_default)
  from 1 2 3 4 bootstrap_prefix[of r m c] bootstrap_attempts[of r m c]
    bootstrap_backoff_total[of r m c]
  show ?thesis by blast
qed

theorem bootstrap_is_bounded_witness:
  "private_key_usable failing_conn_env \<and> attempt failing_conn_env 2 = Inl ''network down''
   \<and> startServer_initializeWeb3 failing_conn_env =
       (False, [Attempt 0, Backoff 1000, Attempt 1, Backoff 2000, Attempt 2, Backoff 4000, Attempt 3])"
proof -
  have h: "private_key_usable failing_conn_env
      \<and> (\<forall>k \<le> 3. \<exists>msg. attempt failing_conn_env k = Inl msg)"
    by (simp add: failing_conn_env_def)
  from bootstrap_is_bounded[of failing_conn_env 0 3] h
  have "startServer_initializeWeb3 failing_conn_env =
       (False, [Attempt 0, Backoff 1000, Attempt 1, Backoff 2000, Attempt 2, Backoff 4000, Attempt 3])"
    by blast
  then show ?thesis by (simp add: failing_conn_env_def)
qed



end
